theory Spec2Isabelle
  imports Complex_Main "HOL-Library.Log_Nat"
begin

section \<open>Python values\<close>

text \<open>
  The geographic core of \<^verbatim>\<open>scripts/01_magenta_fetch_mangrove.py\<close> (the same functions are
  repeated verbatim in \<^verbatim>\<open>scripts/magenta_fetch_non_mangrove.py\<close>) works on Python floats,
  strings and \<^verbatim>\<open>None\<close>.

  A float is an IEEE binary64 value: not-a-number, one of the two infinities, or a finite
  value, which is carried as the rational number it denotes. The two zeros are identified
  (no function below can tell them apart).
\<close>

datatype pyfloat = Finite rat | PosInf | NegInf | NaN

text \<open>\<^verbatim>\<open>abs(x)\<close> and \<^verbatim>\<open>-x\<close> on floats.\<close>

fun fabs :: "pyfloat \<Rightarrow> pyfloat" where
  "fabs (Finite q) = Finite \<bar>q\<bar>"
| "fabs PosInf = PosInf"
| "fabs NegInf = PosInf"
| "fabs NaN = NaN"

fun fneg :: "pyfloat \<Rightarrow> pyfloat" where
  "fneg (Finite q) = Finite (- q)"
| "fneg PosInf = NegInf"
| "fneg NegInf = PosInf"
| "fneg NaN = NaN"

text \<open>\<^verbatim>\<open>x <= y\<close> on floats: every comparison with not-a-number is false.\<close>

fun fle :: "pyfloat \<Rightarrow> pyfloat \<Rightarrow> bool" where
  "fle NaN _ = False"
| "fle _ NaN = False"
| "fle NegInf _ = True"
| "fle _ PosInf = True"
| "fle (Finite a) (Finite b) = (a \<le> b)"
| "fle (Finite a) NegInf = False"
| "fle PosInf _ = False"

text \<open>\<^verbatim>\<open>np.isfinite(x)\<close>.\<close>

fun np_isfinite :: "pyfloat \<Rightarrow> bool" where
  "np_isfinite (Finite q) = True"
| "np_isfinite _ = False"

subsection \<open>Decimal to binary64 conversion\<close>

text \<open>
  \<^verbatim>\<open>float(...)\<close> rounds the exact value to the nearest binary64 number, ties to the even
  significand; a value that rounds to \<open>2 ^ 1024\<close> or beyond becomes an infinity and one that
  rounds below the least subnormal becomes zero.
\<close>

definition round_half_even :: "rat \<Rightarrow> int" where
  "round_half_even q =
     (let f = \<lfloor>q\<rfloor>; r = q - of_int f
      in if r < 1 / 2 then f else if 1 / 2 < r then f + 1 else if even f then f else f + 1)"

text \<open>The binary exponent of a positive rational: the \<open>e\<close> with \<open>2 ^ e \<le> q < 2 ^ (e + 1)\<close>.\<close>

definition binade :: "rat \<Rightarrow> int" where
  "binade q = (case quotient_of q of (n, d) \<Rightarrow>
     (let e = bitlen n - bitlen d in if power_int 2 e \<le> q then e else e - 1))"

definition float_of_rat :: "rat \<Rightarrow> pyfloat" where
  "float_of_rat q =
     (if q = 0 then Finite 0
      else let e = max (binade \<bar>q\<bar>) (- 1022);
               ulp = power_int 2 (e - 52);
               r = of_int (round_half_even (\<bar>q\<bar> / ulp)) * ulp
           in if 2 ^ 1024 \<le> r then (if q < 0 then NegInf else PosInf)
              else Finite (if q < 0 then - r else r))"

subsection \<open>Objects\<close>

text \<open>
  The objects that reach the functions below: \<^verbatim>\<open>None\<close>, a float, an int, a string, or an
  object of another kind (one that \<^verbatim>\<open>pd.isna\<close> does not count as missing and that
  \<^verbatim>\<open>float()\<close> refuses). Strings are lists of 8-bit characters, so text outside Latin-1 is
  not represented.
\<close>

datatype pyval = PyNone | PyFloat pyfloat | PyInt int | PyStr string | PyOther

datatype exn = ValueError | TypeError | OverflowError | KeyError | RequestException

text \<open>\<^verbatim>\<open>pd.isna(v)\<close> on a scalar: \<^verbatim>\<open>None\<close> and not-a-number are missing.\<close>

definition pd_isna :: "pyval \<Rightarrow> bool" where
  "pd_isna v \<longleftrightarrow> v = PyNone \<or> v = PyFloat NaN"

text \<open>
  \<^verbatim>\<open>float(v)\<close>. How Python reads an arbitrary string as a float (exponents, \<^verbatim>\<open>inf\<close>,
  \<^verbatim>\<open>nan\<close>, surrounding blanks, underscores) is the parameter \<open>strtod\<close>, \<open>None\<close> standing
  for \<^verbatim>\<open>ValueError\<close>. An int converts unless it is too large for a float.
\<close>

fun py_float :: "(string \<Rightarrow> pyfloat option) \<Rightarrow> pyval \<Rightarrow> exn + pyfloat" where
  "py_float strtod (PyFloat x) = Inr x"
| "py_float strtod (PyInt i) =
     (case float_of_rat (of_int i) of Finite q \<Rightarrow> Inr (Finite q) | _ \<Rightarrow> Inl OverflowError)"
| "py_float strtod (PyStr s) = (case strtod s of Some x \<Rightarrow> Inr x | None \<Rightarrow> Inl ValueError)"
| "py_float strtod PyNone = Inl TypeError"
| "py_float strtod PyOther = Inl TypeError"

section \<open>Regular expression scans\<close>

text \<open>
  Character classes of the two patterns
  \<^verbatim>\<open>([+-]?\d+(?:\.\d+)?)([NnSsEeWw]?)\<close> and \<^verbatim>\<open>([+-]?\d+(?:\.\d+)?)\<close>. Among the
  8-bit characters \<^verbatim>\<open>\d\<close> matches the ten ASCII digits only.
\<close>

definition is_digit :: "char \<Rightarrow> bool" where
  "is_digit c \<longleftrightarrow> c \<in> set ''0123456789''"

definition is_sign :: "char \<Rightarrow> bool" where
  "is_sign c \<longleftrightarrow> c = CHR ''+'' \<or> c = CHR ''-''"

definition is_hemi :: "char \<Rightarrow> bool" where
  "is_hemi c \<longleftrightarrow> c \<in> set ''NnSsEeWw''"

text \<open>
  The pieces of \<^verbatim>\<open>[+-]?\d+(?:\.\d+)?\<close>, each returning what it consumed and the text
  after it. The quantifiers are greedy: \<^verbatim>\<open>\d+\<close> takes every digit there is and fails when
  there is none; the optional group \<^verbatim>\<open>(?:\.\d+)?\<close> consumes a dot only when a digit follows it.
\<close>

definition match_sign :: "string \<Rightarrow> string \<times> string" where
  "match_sign cs = (case cs of [] \<Rightarrow> ([], []) | c # r \<Rightarrow> if is_sign c then ([c], r) else ([], cs))"

definition match_digits :: "string \<Rightarrow> (string \<times> string) option" where
  "match_digits cs =
     (if takeWhile is_digit cs = [] then None
      else Some (takeWhile is_digit cs, dropWhile is_digit cs))"

definition match_fraction :: "string \<Rightarrow> string \<times> string" where
  "match_fraction cs =
     (case cs of
        [] \<Rightarrow> ([], [])
      | c # r \<Rightarrow>
          if c = CHR ''.''
          then (case match_digits r of None \<Rightarrow> ([], cs) | Some (ds, rest) \<Rightarrow> (c # ds, rest))
          else ([], cs))"

text \<open>
  One attempt to match the whole number pattern at the head of the text. When a sign is
  there and no digit follows it the attempt fails: retried without the sign, \<^verbatim>\<open>\d+\<close> would
  have to start on the sign itself.
\<close>

definition match_number :: "string \<Rightarrow> (string \<times> string) option" where
  "match_number cs =
     (case match_sign cs of (sg, r0) \<Rightarrow>
        (case match_digits r0 of
           None \<Rightarrow> None
         | Some (ds, r1) \<Rightarrow>
             (case match_fraction r1 of (fr, r2) \<Rightarrow> Some (sg @ ds @ fr, r2))))"

lemma match_sign_split: "match_sign cs = (sg, r) \<Longrightarrow> cs = sg @ r"
  by (auto simp: match_sign_def split: list.splits if_splits)

lemma match_digits_split:
  "match_digits cs = Some (ds, r) \<Longrightarrow> cs = ds @ r \<and> ds \<noteq> []"
  by (auto simp: match_digits_def split: if_splits)

lemma match_fraction_split: "match_fraction cs = (fr, r) \<Longrightarrow> cs = fr @ r"
  by (auto simp: match_fraction_def split: list.splits if_splits option.splits
      dest: match_digits_split)

lemma match_number_split:
  assumes "match_number cs = Some (num, rest)"
  shows "cs = num @ rest" and "num \<noteq> []"
proof -
  from assms obtain sg r0 ds r1 fr where
    s: "match_sign cs = (sg, r0)" and d: "match_digits r0 = Some (ds, r1)"
    and f: "match_fraction r1 = (fr, rest)" and n: "num = sg @ ds @ fr"
    by (auto simp: match_number_def split: prod.splits option.splits)
  from match_sign_split [OF s] match_digits_split [OF d] match_fraction_split [OF f] n
  show "cs = num @ rest" and "num \<noteq> []" by auto
qed

lemma match_number_shorter:
  "match_number cs = Some (num, rest) \<Longrightarrow> length rest < length cs"
  using match_number_split [of cs num rest] by (cases num) auto

text \<open>
  \<^verbatim>\<open>re.findall(r'([+-]?\d+(?:\.\d+)?)', s)\<close>: the non-overlapping matches from left to right.
  Where no match starts, the scan moves one character on; after a match it continues behind it.
\<close>

function findall_numbers :: "string \<Rightarrow> string list" where
  "findall_numbers [] = []"
| "findall_numbers (c # cs) =
     (case match_number (c # cs) of
        None \<Rightarrow> findall_numbers cs
      | Some (num, rest) \<Rightarrow> num # findall_numbers rest)"
  by pat_completeness auto
termination
  by (relation "measure length") (auto dest: match_number_shorter)

text \<open>
  \<^verbatim>\<open>re.findall(r'([+-]?\d+(?:\.\d+)?)([NnSsEeWw]?)', s)\<close>: pairs of the number and the
  hemisphere letter behind it (the empty string when there is none).
\<close>

definition match_hemi :: "string \<Rightarrow> string \<times> string" where
  "match_hemi rest = (case rest of [] \<Rightarrow> ([], []) | h # r \<Rightarrow> if is_hemi h then ([h], r) else ([], rest))"

lemma match_hemi_length: "match_hemi rest = (h, r) \<Longrightarrow> length r \<le> length rest"
  by (auto simp: match_hemi_def split: list.splits if_splits)

function findall_tokens :: "string \<Rightarrow> (string \<times> string) list" where
  "findall_tokens [] = []"
| "findall_tokens (c # cs) =
     (case match_number (c # cs) of
        None \<Rightarrow> findall_tokens cs
      | Some (num, rest) \<Rightarrow>
          (case match_hemi rest of (hemi, rest') \<Rightarrow> (num, hemi) # findall_tokens rest'))"
  by pat_completeness auto
termination
proof (relation "measure length", goal_cases)
  case 1
  show ?case by simp
next
  case (2 c cs)
  show ?case by simp
next
  case (3 c cs x2 num rest hemi rest')
  then show ?case
    using match_number_shorter [of "c # cs" num rest] match_hemi_length [of rest hemi rest']
    by simp
qed

section \<open>Coordinate Extractor\<close>

text \<open>
  \<^verbatim>\<open>str.strip()\<close> removes the white space at both ends; among the 8-bit characters
  \<^verbatim>\<open>str.isspace\<close> holds for the code points below.
\<close>

definition is_space :: "char \<Rightarrow> bool" where
  "is_space c \<longleftrightarrow> (of_char c :: nat) \<in> {9, 10, 11, 12, 13, 28, 29, 30, 31, 32, 133, 160}"

definition py_strip :: "string \<Rightarrow> string" where
  "py_strip s = rev (dropWhile is_space (rev (dropWhile is_space s)))"

text \<open>\<^verbatim>\<open>str.upper()\<close>, on the ASCII letters (all that a hemisphere group can hold).\<close>

definition upper_char :: "char \<Rightarrow> char" where
  "upper_char c =
     (case map_of (zip ''abcdefghijklmnopqrstuvwxyz'' ''ABCDEFGHIJKLMNOPQRSTUVWXYZ'') c of
        None \<Rightarrow> c
      | Some u \<Rightarrow> u)"

definition py_upper :: "string \<Rightarrow> string" where
  "py_upper s = map upper_char s"

text \<open>
  \<^verbatim>\<open>float(num)\<close> for a matched number: the decimal value that the sign, the integer digits
  and the digits behind the dot denote, rounded to binary64. On the matches of the number
  pattern \<^verbatim>\<open>float\<close> never raises.
\<close>

definition digit_val :: "char \<Rightarrow> nat" where
  "digit_val c = of_char c - 48"

definition nat_of_digits :: "string \<Rightarrow> nat" where
  "nat_of_digits ds = foldl (\<lambda>a c. 10 * a + digit_val c) 0 ds"

definition decimal_value :: "string \<Rightarrow> rat" where
  "decimal_value num =
     (case match_sign num of (sg, body) \<Rightarrow>
        (let ip = takeWhile is_digit body;
             fp = drop 1 (dropWhile is_digit body);
             m = of_nat (nat_of_digits ip) + of_nat (nat_of_digits fp) / 10 ^ length fp
         in if sg = ''-'' then - m else m))"

definition py_float_token :: "string \<Rightarrow> pyfloat" where
  "py_float_token num = float_of_rat (decimal_value num)"

text \<open>The \<^verbatim>\<open>if/elif\<close> chain of \<^verbatim>\<open>_parse_ns_ew\<close> on one token.\<close>

definition hemi_adjust :: "string \<Rightarrow> pyfloat \<Rightarrow> pyfloat" where
  "hemi_adjust hemi x =
     (if py_upper hemi = ''S'' then fneg (fabs x)
      else if py_upper hemi = ''N'' then fabs x
      else if py_upper hemi = ''W'' then fneg (fabs x)
      else if py_upper hemi = ''E'' then fabs x
      else x)"

text \<open>
  \<^verbatim>\<open>_parse_ns_ew(val)\<close>: \<^verbatim>\<open>(None, None)\<close> for a value that is no string and for a text
  with fewer than two tokens, otherwise the first two adjusted numbers.
\<close>

definition parse_ns_ew :: "pyval \<Rightarrow> pyval \<times> pyval" where
  "parse_ns_ew val =
     (case val of
        PyStr s \<Rightarrow>
          (let tokens = findall_tokens (py_strip s);
               nums = map (\<lambda>(num, hemi). hemi_adjust hemi (py_float_token num)) tokens
           in if 2 \<le> length nums then (PyFloat (nums ! 0), PyFloat (nums ! 1))
              else (PyNone, PyNone))
      | _ \<Rightarrow> (PyNone, PyNone))"

text \<open>
  \<^verbatim>\<open>_extract_lat_lon_from_text(s)\<close>: the pair of \<^verbatim>\<open>_parse_ns_ew\<close> when neither part
  is \<^verbatim>\<open>None\<close>, else the first two matches of the plain number pattern, else
  \<^verbatim>\<open>(nan, nan)\<close>.
\<close>

definition extract_lat_lon_from_text :: "pyval \<Rightarrow> pyval \<times> pyval" where
  "extract_lat_lon_from_text s =
     (case s of
        PyStr str \<Rightarrow>
          (case parse_ns_ew s of (lat, lon) \<Rightarrow>
             if lat \<noteq> PyNone \<and> lon \<noteq> PyNone then (lat, lon)
             else (let nums = findall_numbers str
                   in if 2 \<le> length nums
                      then (PyFloat (py_float_token (nums ! 0)), PyFloat (py_float_token (nums ! 1)))
                      else (PyFloat NaN, PyFloat NaN)))
      | _ \<Rightarrow> (PyFloat NaN, PyFloat NaN))"

subsection \<open>The token form of the specification\<close>

text \<open>
  The specification describes a token as an optional sign, digits, an optional decimal part
  and an optional hemisphere letter, and a sign convention on it: the letters S and W force a
  negative magnitude, N and E a positive one, no letter leaves the signed number as it is.
  The predicates below say this without the regular expression: a number is an optional sign,
  at least one digit and, optionally, a dot with at least one digit behind it; a hemisphere
  token is empty or one of the letters, in either case; a separator is any character that is
  neither a digit, a sign, a dot nor a hemisphere letter.
\<close>

definition is_number_token :: "string \<Rightarrow> bool" where
  "is_number_token n \<longleftrightarrow>
     (let body = (if n \<noteq> [] \<and> is_sign (hd n) then tl n else n);
          ip = takeWhile is_digit body;
          fr = dropWhile is_digit body
      in ip \<noteq> [] \<and> (fr = [] \<or> (hd fr = CHR ''.'' \<and> tl fr \<noteq> [] \<and> list_all is_digit (tl fr))))"

definition is_hemi_token :: "string \<Rightarrow> bool" where
  "is_hemi_token h \<longleftrightarrow> length h \<le> 1 \<and> list_all is_hemi h"

definition is_separator :: "char \<Rightarrow> bool" where
  "is_separator c \<longleftrightarrow> \<not> is_digit c \<and> \<not> is_sign c \<and> \<not> is_hemi c \<and> c \<noteq> CHR ''.''"

definition sign_convention :: "string \<Rightarrow> pyfloat \<Rightarrow> pyfloat" where
  "sign_convention h x =
     (if h = ''S'' \<or> h = ''s'' \<or> h = ''W'' \<or> h = ''w'' then fneg (fabs x)
      else if h = ''N'' \<or> h = ''n'' \<or> h = ''E'' \<or> h = ''e'' then fabs x
      else x)"

section \<open>Coordinate Validator\<close>

text \<open>
  The body of the \<^verbatim>\<open>try\<close> block of \<^verbatim>\<open>_valid_lat_lon\<close>, which may raise, and the
  function itself, whose \<^verbatim>\<open>except Exception\<close> turns every exception into \<^verbatim>\<open>False\<close>.
\<close>

definition valid_lat_lon_try :: "(string \<Rightarrow> pyfloat option) \<Rightarrow> pyval \<Rightarrow> pyval \<Rightarrow> exn + bool" where
  "valid_lat_lon_try strtod lat lon =
     (if pd_isna lat \<or> pd_isna lon then Inr False
      else (case py_float strtod lat of
              Inl e \<Rightarrow> Inl e
            | Inr la \<Rightarrow>
                (case py_float strtod lon of
                   Inl e \<Rightarrow> Inl e
                 | Inr lo \<Rightarrow>
                     Inr (np_isfinite la \<and> np_isfinite lo
                          \<and> fle (Finite (- 90)) la \<and> fle la (Finite 90)
                          \<and> fle (Finite (- 180)) lo \<and> fle lo (Finite 180)))))"

definition valid_lat_lon :: "(string \<Rightarrow> pyfloat option) \<Rightarrow> pyval \<Rightarrow> pyval \<Rightarrow> bool" where
  "valid_lat_lon strtod lat lon =
     (case valid_lat_lon_try strtod lat lon of Inl e \<Rightarrow> False | Inr b \<Rightarrow> b)"

section \<open>Retrying an external command\<close>

text \<open>
  \<^verbatim>\<open>run_cmd(cmd, retries)\<close>. The environment is the function \<open>call\<close>: \<open>call cmd k\<close> is the
  exit status that \<^verbatim>\<open>subprocess.call(cmd, shell=True, env=SAFE_ENV)\<close> returns at its
  \<open>k\<close>-th invocation (counted from 0). The loop runs over \<^verbatim>\<open>range(1, retries+1)\<close>, which has
  \<open>nat retries\<close> elements. The result is the returned status together with the number of
  invocations made.
\<close>

fun run_cmd_loop :: "(nat \<Rightarrow> int) \<Rightarrow> nat \<Rightarrow> nat \<Rightarrow> int \<Rightarrow> int \<times> nat" where
  "run_cmd_loop call 0 k last_status = (last_status, k)"
| "run_cmd_loop call (Suc n) k last_status =
     (let status = call k in if status = 0 then (0, Suc k) else run_cmd_loop call n (Suc k) status)"

definition run_cmd :: "(string \<Rightarrow> nat \<Rightarrow> int) \<Rightarrow> string \<Rightarrow> int \<Rightarrow> int \<times> nat" where
  "run_cmd call cmd retries = run_cmd_loop (call cmd) (nat retries) 0 1"

section \<open>Tables\<close>

text \<open>
  A \<^verbatim>\<open>DataFrame\<close> that a lookup returns: its column labels and its rows, each row holding
  one cell per column. A row of such a table is read by label; a label that the table does
  not have, or a cell that a short row lacks, reads as missing.
\<close>

record frame =
  columns :: "string list"
  rows :: "pyval list list"

definition column_index :: "string list \<Rightarrow> string \<Rightarrow> nat option" where
  "column_index cols c =
     (if c \<in> set cols then Some (length (takeWhile (\<lambda>x. x \<noteq> c) cols)) else None)"

definition cell :: "frame \<Rightarrow> pyval list \<Rightarrow> string \<Rightarrow> pyval" where
  "cell f r c =
     (case column_index (columns f) c of
        None \<Rightarrow> PyFloat NaN
      | Some i \<Rightarrow> if i < length r then r ! i else PyFloat NaN)"

text \<open>\<^verbatim>\<open>df.empty\<close>: no rows or no columns.\<close>

definition df_empty :: "frame \<Rightarrow> bool" where
  "df_empty f \<longleftrightarrow> columns f = [] \<or> rows f = []"

text \<open>\<^verbatim>\<open>df.rename(columns={...})\<close>.\<close>

definition rename_columns :: "(string \<times> string) list \<Rightarrow> frame \<Rightarrow> frame" where
  "rename_columns ren f =
     f\<lparr>columns := map (\<lambda>c. case map_of ren c of None \<Rightarrow> c | Some c' \<Rightarrow> c') (columns f)\<rparr>"

text \<open>\<^verbatim>\<open>Series.unique()\<close>: the distinct values in the order of their first appearance.\<close>

definition py_unique :: "'a list \<Rightarrow> 'a list" where
  "py_unique xs = foldl (\<lambda>acc x. if x \<in> set acc then acc else acc @ [x]) [] xs"

text \<open>
  \<^verbatim>\<open>pd.concat(records, ignore_index=True, sort=False)\<close>: the columns are the union of the
  tables' columns in the order of first appearance, the rows follow one another, and a cell
  of a column that a table does not have is missing. The labels of a table are taken to be
  distinct (a table read from a file has distinct labels); what pandas does with repeated
  labels is not modelled.
\<close>

definition pd_concat :: "frame list \<Rightarrow> frame" where
  "pd_concat fs =
     (let cols = py_unique (concat (map columns fs))
      in \<lparr>columns = cols,
          rows = concat (map (\<lambda>f. map (\<lambda>r. map (cell f r) cols) (rows f)) fs)\<rparr>)"

text \<open>\<^verbatim>\<open>df[[c1, ..., cn]]\<close>: \<^verbatim>\<open>KeyError\<close> when a label is not a column.\<close>

definition select_columns :: "frame \<Rightarrow> string list \<Rightarrow> exn + frame" where
  "select_columns f cols =
     (if list_all (\<lambda>c. c \<in> set (columns f)) cols
      then Inr \<lparr>columns = cols, rows = map (\<lambda>r. map (cell f r) cols) (rows f)\<rparr>
      else Inl KeyError)"

section \<open>External lookups\<close>

text \<open>
  The world outside the program: the answer of
  \<^verbatim>\<open>requests.get(f"{ENA_BASE}?{urlencode(params)}", timeout=180, verify=CA_BUNDLE)\<close> to the
  parameters of a query, which may raise and which changes the state of the world; what
  \<^verbatim>\<open>pd.read_csv(io.StringIO(r.content.decode("utf-8")), sep="\t", dtype=str)\<close> makes of the
  content, which may raise as well; and how \<^verbatim>\<open>pd.to_numeric\<close> and \<^verbatim>\<open>float\<close> read a string.
\<close>

record http_response =
  status_error :: bool
  content :: string

record 'w env =
  http_get :: "'w \<Rightarrow> (string \<times> string) list \<Rightarrow> (exn + http_response) \<times> 'w"
  read_csv :: "string \<Rightarrow> exn + frame"
  numeric_of_str :: "string \<Rightarrow> pyfloat option"
  float_of_str :: "string \<Rightarrow> pyfloat option"

text \<open>
  What distinguishes \<^verbatim>\<open>enrich_coords_from_ena_by_runs\<close> from
  \<^verbatim>\<open>enrich_coords_from_ena_by_samples\<close>: the field that is queried, the result type, the
  fields asked for and the label that the key column gets.
\<close>

record lookup =
  id_field :: string
  result_name :: string
  field_names :: "string list"
  key_column :: string

definition by_runs :: lookup where
  "by_runs = \<lparr>id_field = ''run_accession'', result_name = ''read_run'',
     field_names = [''run_accession'', ''lat'', ''lon'', ''location''], key_column = ''Run''\<rparr>"

definition by_samples :: lookup where
  "by_samples = \<lparr>id_field = ''sample_accession'', result_name = ''sample'',
     field_names = [''sample_accession'', ''lat'', ''lon'', ''location'', ''country''],
     key_column = ''Sample''\<rparr>"

text \<open>\<^verbatim>\<open>sep.join(xs)\<close>.\<close>

definition py_join :: "string \<Rightarrow> string list \<Rightarrow> string" where
  "py_join sep xs = (case xs of [] \<Rightarrow> [] | x # r \<Rightarrow> foldl (\<lambda>a y. a @ sep @ y) x r)"

text \<open>\<^verbatim>\<open>[r for r in run_ids if isinstance(r, str) and r.strip()]\<close>.\<close>

definition str_ids :: "pyval list \<Rightarrow> string list" where
  "str_ids ids =
     concat (map (\<lambda>v. case v of PyStr s \<Rightarrow> if py_strip s \<noteq> [] then [s] else [] | _ \<Rightarrow> []) ids)"

text \<open>
  The slices \<^verbatim>\<open>xs[i:i+n]\<close> for \<^verbatim>\<open>i in range(0, len(xs), n)\<close>, for a positive \<open>n\<close>.
\<close>

definition chunks_of :: "nat \<Rightarrow> 'a list \<Rightarrow> 'a list list" where
  "chunks_of n xs = map (\<lambda>k. take n (drop (k * n) xs)) [0 ..< (length xs + n - 1) div n]"

text \<open>
  The body of the \<^verbatim>\<open>try\<close> block for one chunk: \<open>Inr (Some dfc)\<close> when a table is appended to
  \<^verbatim>\<open>records\<close>, \<open>Inr None\<close> when the answer is empty, \<open>Inl e\<close> when something raised.
\<close>

definition fetch_chunk ::
  "('w, 'x) env_scheme \<Rightarrow> lookup \<Rightarrow> string list \<Rightarrow> 'w \<Rightarrow> (exn + frame option) \<times> 'w" where
  "fetch_chunk E L chunk w =
     (let ors = py_join '' OR '' (map (\<lambda>r. id_field L @ ''='' @ [CHR 0x22] @ r @ [CHR 0x22]) chunk);
          params = [(''result'', result_name L), (''query'', ors),
                    (''fields'', py_join '','' (field_names L)), (''format'', ''tsv''),
                    (''limit'', ''0'')]
      in case http_get E w params of
           (Inl e, w') \<Rightarrow> (Inl e, w')
         | (Inr r, w') \<Rightarrow>
             if status_error r then (Inl RequestException, w')
             else if content r = [] then (Inr None, w')
             else (case read_csv E (content r) of
                     Inl e \<Rightarrow> (Inl e, w')
                   | Inr dfc \<Rightarrow>
                       if df_empty dfc then (Inr None, w')
                       else (Inr (Some (rename_columns
                               [(id_field L, key_column L), (''lat'', ''latitude''),
                                (''lon'', ''longitude''), (''location'', ''geographic_location'')]
                               dfc)), w')))"

text \<open>
  The loop over the chunks. \<^verbatim>\<open>except Exception\<close> prints a warning and goes on with the
  next chunk.
\<close>

fun enrich_loop ::
  "('w, 'x) env_scheme \<Rightarrow> lookup \<Rightarrow> string list list \<Rightarrow> frame list \<Rightarrow> 'w \<Rightarrow> frame list \<times> 'w" where
  "enrich_loop E L [] records w = (records, w)"
| "enrich_loop E L (chunk # chunks) records w =
     (case fetch_chunk E L chunk w of
        (Inl e, w') \<Rightarrow> enrich_loop E L chunks records w'
      | (Inr None, w') \<Rightarrow> enrich_loop E L chunks records w'
      | (Inr (Some dfc), w') \<Rightarrow> enrich_loop E L chunks (records @ [dfc]) w')"

text \<open>
  The lookup function. \<^verbatim>\<open>range(0, len(ids), chunk_size)\<close> raises \<^verbatim>\<open>ValueError\<close> for a
  step of 0 and is empty for a negative step.
\<close>

definition schema_frame :: "lookup \<Rightarrow> frame" where
  "schema_frame L =
     \<lparr>columns = [key_column L, ''latitude'', ''longitude'', ''geographic_location''], rows = []\<rparr>"

definition enrich_coords_from_ena ::
  "('w, 'x) env_scheme \<Rightarrow> lookup \<Rightarrow> pyval list \<Rightarrow> int \<Rightarrow> 'w \<Rightarrow> (exn + frame) \<times> 'w" where
  "enrich_coords_from_ena E L ids chunk_size w =
     (if chunk_size = 0 then (Inl ValueError, w)
      else (let chunks = (if chunk_size < 0 then [] else chunks_of (nat chunk_size) (str_ids ids))
            in case enrich_loop E L chunks [] w of
                 (records, w') \<Rightarrow>
                   (Inr (if records = [] then schema_frame L else pd_concat records), w')))"

definition enrich_coords_from_ena_by_runs ::
  "('w, 'x) env_scheme \<Rightarrow> pyval list \<Rightarrow> int \<Rightarrow> 'w \<Rightarrow> (exn + frame) \<times> 'w" where
  "enrich_coords_from_ena_by_runs E run_ids chunk_size w =
     enrich_coords_from_ena E by_runs run_ids chunk_size w"

definition enrich_coords_from_ena_by_samples ::
  "('w, 'x) env_scheme \<Rightarrow> pyval list \<Rightarrow> int \<Rightarrow> 'w \<Rightarrow> (exn + frame) \<times> 'w" where
  "enrich_coords_from_ena_by_samples E sample_ids chunk_size w =
     enrich_coords_from_ena E by_samples sample_ids chunk_size w"

text \<open>
  For stating what the loop collects: the outcome of every chunk in turn, the world being
  passed from one request to the next, and the tables among the outcomes.
\<close>

fun chunk_outcomes ::
  "('w, 'x) env_scheme \<Rightarrow> lookup \<Rightarrow> string list list \<Rightarrow> 'w \<Rightarrow> (exn + frame option) list" where
  "chunk_outcomes E L [] w = []"
| "chunk_outcomes E L (chunk # chunks) w =
     (case fetch_chunk E L chunk w of (r, w') \<Rightarrow> r # chunk_outcomes E L chunks w')"

definition successes :: "(exn + frame option) list \<Rightarrow> frame list" where
  "successes os = concat (map (\<lambda>r. case r of Inr (Some dfc) \<Rightarrow> [dfc] | _ \<Rightarrow> []) os)"

section \<open>Enrichment Resolver\<close>

text \<open>
  A row of \<^verbatim>\<open>all_df\<close>. Of its columns the resolver reads and writes these five; the other
  columns travel along in the extension of the record. \<^verbatim>\<open>Run\<close> and \<^verbatim>\<open>Sample\<close> hold an
  accession string or are missing (the tables are read with \<^verbatim>\<open>dtype=str\<close>). A column that
  the table does not have is a column of missing cells, which is what the first loop of
  \<^verbatim>\<open>fill_and_filter_geo\<close> makes of it. Rows are addressed by position (the index of the
  table is taken to be free of duplicates).
\<close>

record geo_row =
  Run :: "string option"
  Sample :: "string option"
  latitude :: pyval
  longitude :: pyval
  geographic_location :: pyval

text \<open>\<^verbatim>\<open>a.fillna(b)\<close> on one cell: the cell of \<open>b\<close> where that of \<open>a\<close> is missing.\<close>

definition fillna :: "pyval \<Rightarrow> pyval \<Rightarrow> pyval" where
  "fillna a b = (if pd_isna a then b else a)"

definition missing_geo :: "'a geo_row_scheme \<Rightarrow> bool" where
  "missing_geo l \<longleftrightarrow> pd_isna (latitude l) \<or> pd_isna (longitude l)"

text \<open>
  \<^verbatim>\<open>all_df.loc[mask, key].dropna().astype(str).unique().tolist()\<close> with the mask
  \<^verbatim>\<open>all_df[key].notna() & (all_df["latitude"].isna() | all_df["longitude"].isna())\<close>.
\<close>

definition ids_to_enrich ::
  "('a geo_row_scheme \<Rightarrow> string option) \<Rightarrow> 'a geo_row_scheme list \<Rightarrow> string list" where
  "ids_to_enrich key all_df =
     py_unique (concat (map (\<lambda>l. case key l of
                                    None \<Rightarrow> []
                                  | Some s \<Rightarrow> if missing_geo l then [s] else []) all_df))"

text \<open>
  \<^verbatim>\<open>all_df.merge(enr[[key, "latitude", "longitude", "geographic_location"]], on=key,
  how="left", suffixes=("", "_ena"))\<close> followed by the three \<^verbatim>\<open>fillna\<close> and the removal of
  the suffixed columns, on one row of \<^verbatim>\<open>all_df\<close>: the row once for every row of the
  lookup table with the same key, in the order of that table, or once with missing lookup
  cells when there is none. Missing keys match each other in a pandas merge.
\<close>

definition key_match :: "string option \<Rightarrow> pyval \<Rightarrow> bool" where
  "key_match k c = (case k of None \<Rightarrow> pd_isna c | Some s \<Rightarrow> c = PyStr s)"

definition fill_row :: "'a geo_row_scheme \<Rightarrow> pyval \<Rightarrow> pyval \<Rightarrow> pyval \<Rightarrow> 'a geo_row_scheme" where
  "fill_row l lat lon loc =
     l\<lparr>latitude := fillna (latitude l) lat,
       longitude := fillna (longitude l) lon,
       geographic_location := fillna (geographic_location l) loc\<rparr>"

definition merge_fill ::
  "('a geo_row_scheme \<Rightarrow> string option) \<Rightarrow> frame \<Rightarrow> 'a geo_row_scheme \<Rightarrow> 'a geo_row_scheme list" where
  "merge_fill key sel l =
     (let ms = filter (\<lambda>m. key_match (key l) (m ! 0)) (rows sel)
      in if ms = [] then [fill_row l (PyFloat NaN) (PyFloat NaN) (PyFloat NaN)]
         else map (\<lambda>m. fill_row l (m ! 1) (m ! 2) (m ! 3)) ms)"

text \<open>
  Stages (1) and (2) of \<^verbatim>\<open>fill_and_filter_geo\<close>: nothing happens when no identifier needs
  a lookup or the lookup table is empty; the column selection raises \<^verbatim>\<open>KeyError\<close> when the
  lookup table lacks one of the four columns.
\<close>

definition fill_from_lookup ::
  "('w, 'x) env_scheme \<Rightarrow> lookup \<Rightarrow> ('a geo_row_scheme \<Rightarrow> string option) \<Rightarrow>
   'a geo_row_scheme list \<Rightarrow> 'w \<Rightarrow> (exn + 'a geo_row_scheme list) \<times> 'w" where
  "fill_from_lookup E L key all_df w =
     (let to_enrich = ids_to_enrich key all_df
      in if to_enrich = [] then (Inr all_df, w)
         else (case enrich_coords_from_ena E L (map PyStr to_enrich) 200 w of
                 (Inl e, w') \<Rightarrow> (Inl e, w')
               | (Inr enr, w') \<Rightarrow>
                   if df_empty enr then (Inr all_df, w')
                   else (case select_columns enr
                                [key_column L, ''latitude'', ''longitude'', ''geographic_location''] of
                           Inl e \<Rightarrow> (Inl e, w')
                         | Inr sel \<Rightarrow> (Inr (concat (map (merge_fill key sel) all_df)), w'))))"

text \<open>
  Stage (3) on one row: a row that still misses a coordinate gets the missing ones from the
  extractor, run on its location text.
\<close>

definition fill_from_text :: "'a geo_row_scheme \<Rightarrow> 'a geo_row_scheme" where
  "fill_from_text l =
     (if missing_geo l
      then (case extract_lat_lon_from_text (geographic_location l) of
              (lat_parsed, lon_parsed) \<Rightarrow>
                l\<lparr>latitude := fillna (latitude l) lat_parsed,
                  longitude := fillna (longitude l) lon_parsed\<rparr>)
      else l)"

text \<open>
  \<^verbatim>\<open>pd.to_numeric(..., errors="coerce")\<close> on one cell: a number stays, a string is read as
  a number when it can be, everything else becomes not-a-number.
\<close>

fun pd_to_numeric :: "(string \<Rightarrow> pyfloat option) \<Rightarrow> pyval \<Rightarrow> pyfloat" where
  "pd_to_numeric rd (PyFloat x) = x"
| "pd_to_numeric rd (PyInt i) = float_of_rat (of_int i)"
| "pd_to_numeric rd (PyStr s) = (case rd s of None \<Rightarrow> NaN | Some x \<Rightarrow> x)"
| "pd_to_numeric rd PyNone = NaN"
| "pd_to_numeric rd PyOther = NaN"

definition to_numeric_row :: "('w, 'x) env_scheme \<Rightarrow> 'a geo_row_scheme \<Rightarrow> 'a geo_row_scheme" where
  "to_numeric_row E l =
     l\<lparr>latitude := PyFloat (pd_to_numeric (numeric_of_str E) (latitude l)),
       longitude := PyFloat (pd_to_numeric (numeric_of_str E) (longitude l))\<rparr>"

definition valid_row :: "('w, 'x) env_scheme \<Rightarrow> 'a geo_row_scheme \<Rightarrow> bool" where
  "valid_row E l = valid_lat_lon (float_of_str E) (latitude l) (longitude l)"

text \<open>\<^verbatim>\<open>fill_and_filter_geo(all_df)\<close>.\<close>

definition fill_and_filter_geo ::
  "('w, 'x) env_scheme \<Rightarrow> 'a geo_row_scheme list \<Rightarrow> 'w \<Rightarrow> (exn + 'a geo_row_scheme list) \<times> 'w" where
  "fill_and_filter_geo E all_df w =
     (case fill_from_lookup E by_runs Run all_df w of
        (Inl e, w1) \<Rightarrow> (Inl e, w1)
      | (Inr df1, w1) \<Rightarrow>
          (case fill_from_lookup E by_samples Sample df1 w1 of
             (Inl e, w2) \<Rightarrow> (Inl e, w2)
           | (Inr df2, w2) \<Rightarrow>
               (Inr (filter (valid_row E) (map (to_numeric_row E) (map fill_from_text df2))), w2)))"

text \<open>
  A resolved record: both coordinates are finite floats, the latitude in \<open>[-90, 90]\<close> and the
  longitude in \<open>[-180, 180]\<close>.
\<close>

definition resolved :: "'a geo_row_scheme \<Rightarrow> bool" where
  "resolved l =
     (case latitude l of
        PyFloat (Finite a) \<Rightarrow>
          (case longitude l of
             PyFloat (Finite b) \<Rightarrow> - 90 \<le> a \<and> a \<le> 90 \<and> - 180 \<le> b \<and> b \<le> 180
           | _ \<Rightarrow> False)
      | _ \<Rightarrow> False)"

text \<open>
  First source wins, between a record \<open>l\<close> before a stage and a record \<open>r\<close> after it: each
  of the three fields that is present in \<open>l\<close> has the same value in \<open>r\<close>.
\<close>

definition keeps_present :: "'a geo_row_scheme \<Rightarrow> 'a geo_row_scheme \<Rightarrow> bool" where
  "keeps_present l r \<longleftrightarrow>
     (pd_isna (latitude l) \<or> latitude r = latitude l)
     \<and> (pd_isna (longitude l) \<or> longitude r = longitude l)
     \<and> (pd_isna (geographic_location l) \<or> geographic_location r = geographic_location l)"

section \<open>An example world\<close>

text \<open>
  A world for the examples: its state counts the requests made. The first request times out;
  every later one is answered with one row for the run \<^verbatim>\<open>R3\<close>. \<^verbatim>\<open>pd.to_numeric\<close> reads
  plain decimal numbers.
\<close>

definition example_env :: "nat env" where
  "example_env = \<lparr>
     http_get = (\<lambda>w params. (if w = 0 then Inl RequestException
                               else Inr \<lparr>status_error = False, content = ''tsv''\<rparr>, Suc w)),
     read_csv = (\<lambda>c. Inr \<lparr>columns = [''run_accession'', ''lat'', ''lon'', ''location''],
                             rows = [[PyStr ''R3'', PyStr ''1.5'', PyStr ''2.5'', PyFloat NaN]]\<rparr>),
     numeric_of_str = (\<lambda>s. if is_number_token s then Some (py_float_token s) else None),
     float_of_str = (\<lambda>s. None)\<rparr>"

text \<open>A table of two records without coordinates and without location text.\<close>

definition example_rows :: "geo_row list" where
  "example_rows =
     [\<lparr>Run = Some ''R3'', Sample = None, latitude = PyFloat NaN, longitude = PyFloat NaN,
        geographic_location = PyFloat NaN\<rparr>,
      \<lparr>Run = Some ''R5'', Sample = None, latitude = PyFloat NaN, longitude = PyFloat NaN,
        geographic_location = PyFloat NaN\<rparr>]"

section \<open>Properties of the scans\<close>

text \<open>
  White space and hemisphere letters never start a number, so both scans step over them. The
  hemisphere-aware scan and the plain scan find the same numbers, and white space at either
  end of the text changes nothing.
\<close>

lemma is_space_inert:
  "is_space c \<Longrightarrow> \<not> is_digit c \<and> \<not> is_sign c \<and> \<not> is_hemi c \<and> c \<noteq> CHR ''.''"
  by (auto simp: is_space_def is_digit_def is_sign_def is_hemi_def)

lemma is_hemi_inert: "is_hemi c \<Longrightarrow> \<not> is_digit c \<and> \<not> is_sign c \<and> c \<noteq> CHR ''.''"
  by (auto simp: is_digit_def is_sign_def is_hemi_def)

lemma match_number_no_start:
  "\<not> is_digit c \<Longrightarrow> \<not> is_sign c \<Longrightarrow> match_number (c # cs) = None"
  by (simp add: match_number_def match_sign_def match_digits_def)

lemma findall_numbers_skip:
  "\<not> is_digit c \<Longrightarrow> \<not> is_sign c \<Longrightarrow> findall_numbers (c # cs) = findall_numbers cs"
  by (simp add: match_number_no_start)

lemma findall_tokens_skip:
  "\<not> is_digit c \<Longrightarrow> \<not> is_sign c \<Longrightarrow> findall_tokens (c # cs) = findall_tokens cs"
  by (simp add: match_number_no_start)

lemma match_hemi_cases:
  "match_hemi rest = (hemi, rest') \<Longrightarrow>
     (hemi = [] \<and> rest' = rest) \<or> (\<exists>h. is_hemi h \<and> hemi = [h] \<and> rest = h # rest')"
  by (auto simp: match_hemi_def split: list.splits if_splits)

lemma tokens_numbers: "map fst (findall_tokens s) = findall_numbers s"
proof (induction s rule: length_induct)
  case (1 s)
  show ?case
  proof (cases s)
    case Nil
    then show ?thesis by simp
  next
    case (Cons c cs)
    show ?thesis
    proof (cases "match_number (c # cs)")
      case None
      with Cons 1 show ?thesis by simp
    next
      case (Some p)
      obtain num rest where p: "p = (num, rest)" by (cases p)
      obtain hemi rest' where h: "match_hemi rest = (hemi, rest')" by (cases "match_hemi rest")
      have short: "length rest < length s"
        using match_number_shorter [of "c # cs" num rest] Some p Cons by simp
      have len': "length rest' < length s"
        using match_hemi_length [OF h] short by simp
      have "findall_numbers rest = findall_numbers rest'"
      proof -
        from match_hemi_cases [OF h] consider "rest' = rest"
          | x where "is_hemi x" and "rest = x # rest'" by blast
        then show ?thesis
        proof cases
          case 1
          then show ?thesis by simp
        next
          case 2
          then show ?thesis
            using is_hemi_inert [of x] findall_numbers_skip [of x rest'] by simp
        qed
      qed
      moreover have "map fst (findall_tokens rest') = findall_numbers rest'"
        using 1 len' by blast
      ultimately show ?thesis
        using Some p h Cons by simp
    qed
  qed
qed

lemma takeWhile_append_stop:
  "ys = [] \<or> \<not> P (hd ys) \<Longrightarrow> takeWhile P (xs @ ys) = takeWhile P xs"
proof (induction xs)
  case Nil
  then show ?case by (cases ys) auto
next
  case (Cons x xs)
  then show ?case by simp
qed

lemma dropWhile_append_stop:
  "ys = [] \<or> \<not> P (hd ys) \<Longrightarrow> dropWhile P (xs @ ys) = dropWhile P xs @ ys"
proof (induction xs)
  case Nil
  then show ?case by (cases ys) auto
next
  case (Cons x xs)
  then show ?case by simp
qed

lemma match_sign_append:
  "ws = [] \<or> \<not> is_sign (hd ws) \<Longrightarrow>
   match_sign (u @ ws) = (case match_sign u of (sg, r) \<Rightarrow> (sg, r @ ws))"
  by (cases u; cases ws) (auto simp: match_sign_def)

lemma match_digits_append:
  "ws = [] \<or> \<not> is_digit (hd ws) \<Longrightarrow>
   match_digits (u @ ws) = map_option (\<lambda>(d, r). (d, r @ ws)) (match_digits u)"
  by (simp add: match_digits_def takeWhile_append_stop dropWhile_append_stop)

lemma match_fraction_append:
  "ws = [] \<or> (\<not> is_digit (hd ws) \<and> hd ws \<noteq> CHR ''.'') \<Longrightarrow>
   match_fraction (u @ ws) = (case match_fraction u of (f, r) \<Rightarrow> (f, r @ ws))"
  by (cases u; cases ws)
     (auto simp: match_fraction_def match_digits_append split: option.splits)

lemma match_number_append:
  assumes "ws = [] \<or> (\<not> is_digit (hd ws) \<and> \<not> is_sign (hd ws) \<and> hd ws \<noteq> CHR ''.'')"
  shows "match_number (u @ ws) = map_option (\<lambda>(n, r). (n, r @ ws)) (match_number u)"
  using assms
  by (auto simp: match_number_def match_sign_append match_digits_append match_fraction_append
      split: prod.splits option.splits)

lemma match_hemi_append:
  "ws = [] \<or> \<not> is_hemi (hd ws) \<Longrightarrow>
   match_hemi (r @ ws) = (case match_hemi r of (h, r') \<Rightarrow> (h, r' @ ws))"
  by (cases r; cases ws) (auto simp: match_hemi_def)

lemma findall_tokens_spaces: "list_all is_space ws \<Longrightarrow> findall_tokens ws = []"
proof (induction ws)
  case Nil
  show ?case by simp
next
  case (Cons c ws)
  then show ?case
    using is_space_inert [of c] findall_tokens_skip [of c ws] by simp
qed

lemma findall_tokens_trailing:
  assumes ws: "list_all is_space ws"
  shows "findall_tokens (u @ ws) = findall_tokens u"
proof (induction u rule: length_induct)
  case (1 u)
  have inert: "ws = [] \<or> (\<not> is_digit (hd ws) \<and> \<not> is_sign (hd ws) \<and> hd ws \<noteq> CHR ''.''
      \<and> \<not> is_hemi (hd ws))"
    using ws is_space_inert [of "hd ws"] by (cases ws) auto
  show ?case
  proof (cases u)
    case Nil
    then show ?thesis using ws by (simp add: findall_tokens_spaces)
  next
    case (Cons c cs)
    have "ws = [] \<or> (\<not> is_digit (hd ws) \<and> \<not> is_sign (hd ws) \<and> hd ws \<noteq> CHR ''.'')"
      using inert by blast
    from match_number_append [OF this, of "c # cs"]
    have m: "match_number (c # cs @ ws)
        = map_option (\<lambda>(n, r). (n, r @ ws)) (match_number (c # cs))"
      by simp
    show ?thesis
    proof (cases "match_number (c # cs)")
      case None
      with m Cons 1 show ?thesis by simp
    next
      case (Some p)
      obtain num rest where p: "p = (num, rest)" by (cases p)
      obtain hemi rest' where h: "match_hemi rest = (hemi, rest')" by (cases "match_hemi rest")
      have h': "match_hemi (rest @ ws) = (hemi, rest' @ ws)"
        using match_hemi_append [of ws rest] inert h by auto
      have "length rest' < length u"
        using match_hemi_length [OF h] match_number_shorter [of "c # cs" num rest] Some p Cons
        by simp
      then have "findall_tokens (rest' @ ws) = findall_tokens rest'"
        using 1 by blast
      then show ?thesis
        using Some p h h' m Cons by simp
    qed
  qed
qed

lemma findall_tokens_leading: "findall_tokens (dropWhile is_space s) = findall_tokens s"
proof (induction s)
  case Nil
  show ?case by simp
next
  case (Cons c s)
  show ?case
  proof (cases "is_space c")
    case True
    with Cons show ?thesis
      using is_space_inert [of c] findall_tokens_skip [of c s] by simp
  next
    case False
    then show ?thesis by simp
  qed
qed

lemma findall_tokens_strip: "findall_tokens (py_strip s) = findall_tokens s"
proof -
  define t where "t = dropWhile is_space s"
  define u where "u = rev (dropWhile is_space (rev t))"
  define ws where "ws = rev (takeWhile is_space (rev t))"
  have "rev (takeWhile is_space (rev t) @ dropWhile is_space (rev t)) = rev (rev t)"
    by (simp only: takeWhile_dropWhile_id)
  then have t: "t = u @ ws"
    by (simp only: rev_append rev_rev_ident u_def ws_def)
  have "list_all is_space ws"
    by (auto simp: ws_def list_all_iff dest: set_takeWhileD)
  then have "findall_tokens (u @ ws) = findall_tokens u"
    by (rule findall_tokens_trailing)
  with t have "findall_tokens u = findall_tokens t" by simp
  also have "\<dots> = findall_tokens s" by (simp add: t_def findall_tokens_leading)
  finally show ?thesis by (simp add: py_strip_def u_def t_def)
qed

lemma strip_tokens_numbers: "map fst (findall_tokens (py_strip s)) = findall_numbers s"
  by (simp add: findall_tokens_strip tokens_numbers)

section \<open>Properties of the Coordinate Extractor\<close>

lemma parse_ns_ew_None_iff:
  "parse_ns_ew (PyStr s) = (PyNone, PyNone) \<longleftrightarrow> length (findall_numbers s) < 2"
proof -
  have "length (findall_tokens (py_strip s)) = length (findall_numbers s)"
    using arg_cong [OF strip_tokens_numbers [of s], of length] by simp
  then show ?thesis
    by (auto simp: parse_ns_ew_def Let_def)
qed

lemma parse_ns_ew_parts:
  "parse_ns_ew (PyStr s) = (lat, lon) \<Longrightarrow>
     (lat \<noteq> PyNone \<and> lon \<noteq> PyNone) \<longleftrightarrow> 2 \<le> length (findall_numbers s)"
  using parse_ns_ew_None_iff [of s]
  by (auto simp: parse_ns_ew_def Let_def split: if_splits)

lemma extract_by_count:
  "extract_lat_lon_from_text (PyStr s) =
     (if 2 \<le> length (findall_numbers s) then parse_ns_ew (PyStr s)
      else (PyFloat NaN, PyFloat NaN))"
proof -
  obtain lat lon where p: "parse_ns_ew (PyStr s) = (lat, lon)"
    by (cases "parse_ns_ew (PyStr s)")
  from parse_ns_ew_parts [OF p] p show ?thesis
    by (auto simp: extract_lat_lon_from_text_def Let_def)
qed

text \<open>
  Claim C10. The plain-number fallback of \<^verbatim>\<open>_extract_lat_lon_from_text\<close> never yields the
  returned coordinates. The hemisphere letter of the first pattern is optional, so the numbers
  of the hemisphere-aware scan are exactly the matches of the plain scan; hence
  \<^verbatim>\<open>_parse_ns_ew\<close> answers \<^verbatim>\<open>(None, None)\<close> exactly when the text has fewer than two
  numeric substrings, and for every string the extractor returns the pair of
  \<^verbatim>\<open>_parse_ns_ew\<close> when there are at least two numeric substrings and \<^verbatim>\<open>(nan, nan)\<close>
  otherwise.
\<close>

theorem extract_is_parse_ns_ew:
  "map fst (findall_tokens (py_strip s)) = findall_numbers s
   \<and> (parse_ns_ew (PyStr s) = (PyNone, PyNone) \<longleftrightarrow> length (findall_numbers s) < 2)
   \<and> extract_lat_lon_from_text (PyStr s) =
       (if 2 \<le> length (findall_numbers s) then parse_ns_ew (PyStr s)
        else (PyFloat NaN, PyFloat NaN))"
  using strip_tokens_numbers [of s] parse_ns_ew_None_iff [of s] extract_by_count [of s]
  by blast

text \<open>
  Claim C4. For every string with fewer than two numeric substrings (matches of the plain
  number pattern) the extractor reports not found, the pair \<^verbatim>\<open>(nan, nan)\<close>; it does not
  make up zero coordinates.
\<close>

theorem extract_not_found:
  "length (findall_numbers s) < 2 \<Longrightarrow>
     extract_lat_lon_from_text (PyStr s) = (PyFloat NaN, PyFloat NaN)"
  by (simp add: extract_by_count)

lemma numbers_lima: "findall_numbers ''Lima, Peru (zone 12)'' = [''12'']"
  by code_simp

theorem extract_not_found_witness:
  "length (findall_numbers ''Lima, Peru (zone 12)'') < 2
   \<and> extract_lat_lon_from_text (PyStr ''Lima, Peru (zone 12)'') = (PyFloat NaN, PyFloat NaN)"
proof -
  have l: "length (findall_numbers ''Lima, Peru (zone 12)'') < 2"
    unfolding numbers_lima by simp
  from l extract_not_found [OF l] show ?thesis by (rule conjI)
qed

lemma number_token_full_match:
  assumes "is_number_token n"
  shows "match_number n = Some (n, [])"
proof -
  define body where "body = (if n \<noteq> [] \<and> is_sign (hd n) then tl n else n)"
  define ip where "ip = takeWhile is_digit body"
  define fr where "fr = dropWhile is_digit body"
  from assms have ip: "ip \<noteq> []"
    and fr: "fr = [] \<or> (hd fr = CHR ''.'' \<and> tl fr \<noteq> [] \<and> list_all is_digit (tl fr))"
    by (simp_all add: is_number_token_def Let_def body_def ip_def fr_def)
  have body: "body = ip @ fr" by (simp add: ip_def fr_def)
  have sg: "match_sign n = (if n \<noteq> [] \<and> is_sign (hd n) then [hd n] else [], body)"
    by (cases n) (auto simp: match_sign_def body_def)
  have n: "n = (if n \<noteq> [] \<and> is_sign (hd n) then [hd n] else []) @ body"
    by (cases n) (auto simp: body_def)
  have dg: "match_digits body = Some (ip, fr)"
    using ip by (simp add: match_digits_def ip_def fr_def)
  have "match_fraction fr = (fr, [])"
  proof (cases fr)
    case Nil
    then show ?thesis by (simp add: match_fraction_def)
  next
    case (Cons c fd)
    with fr have c: "c = CHR ''.''" and fd: "fd \<noteq> []" "list_all is_digit fd" by auto
    have tw: "takeWhile is_digit fd = fd" and dw: "dropWhile is_digit fd = []"
      using fd(2) by (simp_all add: list_all_iff)
    have "match_digits fd = Some (fd, [])"
      unfolding match_digits_def tw dw using fd(1) by simp
    with Cons c show ?thesis by (simp add: match_fraction_def)
  qed
  with sg dg have "match_number n
      = Some ((if n \<noteq> [] \<and> is_sign (hd n) then [hd n] else []) @ ip @ fr, [])"
    by (simp add: match_number_def)
  with n body show ?thesis by simp
qed

lemma number_token_not_Nil: "is_number_token n \<Longrightarrow> n \<noteq> []"
  by (auto simp: is_number_token_def)

lemma findall_tokens_token:
  assumes n: "is_number_token n" and h: "is_hemi_token h"
    and R: "R = [] \<or> is_separator (hd R)"
  shows "findall_tokens (n @ h @ R) = (n, h) # findall_tokens R"
proof -
  have hcases: "h = [] \<or> (\<exists>c. h = [c] \<and> is_hemi c)"
    using h by (cases h) (auto simp: is_hemi_token_def)
  have inert: "h @ R = [] \<or> (\<not> is_digit (hd (h @ R)) \<and> \<not> is_sign (hd (h @ R))
      \<and> hd (h @ R) \<noteq> CHR ''.'')"
    using hcases R is_hemi_inert by (auto simp: is_separator_def)
  have m: "match_number (n @ h @ R) = Some (n, h @ R)"
    using match_number_append [OF inert, of n] number_token_full_match [OF n] by simp
  have mh: "match_hemi (h @ R) = (h, R)"
    using hcases R by (cases R) (auto simp: match_hemi_def is_separator_def)
  obtain c cs where ncs: "n @ h @ R = c # cs"
    using number_token_not_Nil [OF n] by (cases n) auto
  have "findall_tokens (c # cs) = (n, h) # findall_tokens R"
    using m mh unfolding ncs by simp
  then show ?thesis by (simp only: ncs)
qed

lemma findall_tokens_separators:
  "list_all is_separator sep \<Longrightarrow> findall_tokens (sep @ s) = findall_tokens s"
proof (induction sep)
  case Nil
  show ?case by simp
next
  case (Cons c sep)
  then show ?case
    using findall_tokens_skip [of c "sep @ s"] by (simp add: is_separator_def)
qed

lemma hemi_adjust_sign_convention:
  "is_hemi_token h \<Longrightarrow> hemi_adjust h x = sign_convention h x"
proof -
  assume "is_hemi_token h"
  then have "h = [] \<or> (\<exists>c. h = [c] \<and> is_hemi c)"
    by (cases h) (auto simp: is_hemi_token_def)
  then show ?thesis
    by (auto simp: hemi_adjust_def sign_convention_def py_upper_def upper_char_def is_hemi_def)
qed

text \<open>
  Claim C3. For every string made of two tokens of the form sign, digits, decimal part,
  hemisphere letter (each part but the digits optional), with separators before, between and
  after them and anything behind the first separator after the second token,
  \<^verbatim>\<open>_parse_ns_ew\<close> returns the values of the first two tokens under the sign convention:
  negative magnitude for S and W, positive magnitude for N and E, the signed number itself
  without a letter.
\<close>

theorem parse_ns_ew_sign_convention:
  assumes "list_all is_separator pre"
    and "is_number_token n1" and "is_hemi_token h1"
    and "sep \<noteq> []" and "list_all is_separator sep"
    and "is_number_token n2" and "is_hemi_token h2"
    and "tail = [] \<or> is_separator (hd tail)"
  shows "parse_ns_ew (PyStr (pre @ n1 @ h1 @ sep @ n2 @ h2 @ tail)) =
           (PyFloat (sign_convention h1 (py_float_token n1)),
            PyFloat (sign_convention h2 (py_float_token n2)))"
proof -
  let ?s = "pre @ n1 @ h1 @ sep @ n2 @ h2 @ tail"
  have sep_hd: "sep @ n2 @ h2 @ tail = [] \<or> is_separator (hd (sep @ n2 @ h2 @ tail))"
    using assms(4,5) by (cases sep) auto
  have "findall_tokens (py_strip ?s) = findall_tokens ?s"
    by (rule findall_tokens_strip)
  also have "\<dots> = findall_tokens (n1 @ h1 @ sep @ n2 @ h2 @ tail)"
    using assms(1) by (rule findall_tokens_separators)
  also have "\<dots> = (n1, h1) # findall_tokens (sep @ n2 @ h2 @ tail)"
    using assms(2,3) sep_hd by (rule findall_tokens_token)
  also have "findall_tokens (sep @ n2 @ h2 @ tail) = findall_tokens (n2 @ h2 @ tail)"
    using assms(5) by (rule findall_tokens_separators)
  also have "\<dots> = (n2, h2) # findall_tokens tail"
    using assms(6,7,8) by (rule findall_tokens_token)
  finally have "findall_tokens (py_strip ?s) = (n1, h1) # (n2, h2) # findall_tokens tail" .
  then show ?thesis
    using hemi_adjust_sign_convention [OF assms(3)] hemi_adjust_sign_convention [OF assms(7)]
    by (simp add: parse_ns_ew_def)
qed

text \<open>
  The instance \<^verbatim>\<open>"23.5S 45.2W"\<close>: the result is the pair of floats that the literals
  \<^verbatim>\<open>-23.5\<close> and \<^verbatim>\<open>-45.2\<close> denote.
\<close>

lemma float_23_5: "py_float_token ''23.5'' = Finite (47 / 2)"
  by code_simp

lemma float_45_2: "py_float_token ''45.2'' = Finite (3180667236830413 / 70368744177664)"
  by code_simp

theorem parse_ns_ew_sign_convention_witness:
  "parse_ns_ew (PyStr ''23.5S 45.2W'') =
     (PyFloat (Finite (- 47 / 2)), PyFloat (Finite (- 3180667236830413 / 70368744177664)))
   \<and> Finite (- 47 / 2) = float_of_rat (- 235 / 10)
   \<and> Finite (- 3180667236830413 / 70368744177664) = float_of_rat (- 452 / 10)"
proof -
  have t1: "is_number_token ''23.5''" and t2: "is_number_token ''45.2''"
    by (simp_all add: is_number_token_def is_digit_def is_sign_def)
  have h1: "is_hemi_token ''S''" and h2: "is_hemi_token ''W''"
    by (simp_all add: is_hemi_token_def is_hemi_def)
  have sp: "list_all is_separator '' ''" "'' '' \<noteq> []" "list_all is_separator []"
    by (simp_all add: is_separator_def is_digit_def is_sign_def is_hemi_def)
  have "parse_ns_ew (PyStr ([] @ ''23.5'' @ ''S'' @ '' '' @ ''45.2'' @ ''W'' @ [])) =
      (PyFloat (sign_convention ''S'' (py_float_token ''23.5'')),
       PyFloat (sign_convention ''W'' (py_float_token ''45.2'')))"
    using sp(3) t1 h1 sp(2) sp(1) t2 h2 by (rule parse_ns_ew_sign_convention) simp
  then have "parse_ns_ew (PyStr ''23.5S 45.2W'') =
     (PyFloat (Finite (- 47 / 2)), PyFloat (Finite (- 3180667236830413 / 70368744177664)))"
    by (simp add: float_23_5 float_45_2 sign_convention_def)
  moreover have "Finite (- 47 / 2) = float_of_rat (- 235 / 10)"
    by code_simp
  moreover have "Finite (- 3180667236830413 / 70368744177664) = float_of_rat (- 452 / 10)"
    by code_simp
  ultimately show ?thesis by blast
qed

lemma tokens_91_10: "findall_tokens (py_strip ''91.0, 10.0'') = [(''91.0'', []), (''10.0'', [])]"
  by code_simp

lemma parse_91_10:
  "parse_ns_ew (PyStr ''91.0, 10.0'') = (PyFloat (Finite 91), PyFloat (Finite 10))"
  by code_simp

text \<open>
  Claim C5, as stated, fails at its own example: on \<^verbatim>\<open>"91.0, 10.0"\<close> the hemisphere-aware
  scan does not find fewer than two tokens, so the fallback is not the path that yields the
  pair.
\<close>

theorem fallback_example_counterexample:
  "\<not> length (findall_tokens (py_strip ''91.0, 10.0'')) < 2
   \<and> parse_ns_ew (PyStr ''91.0, 10.0'') \<noteq> (PyNone, PyNone)"
  unfolding tokens_91_10 parse_91_10 by simp

lemma hemi_adjust_no_letter: "hemi_adjust [] x = x"
  by (simp add: hemi_adjust_def py_upper_def)

lemma extract_two_bare_numbers:
  assumes "findall_tokens (py_strip s) = (n1, []) # (n2, []) # toks"
  shows "extract_lat_lon_from_text (PyStr s) =
           (PyFloat (py_float_token n1), PyFloat (py_float_token n2))"
    and "take 2 (findall_numbers s) = [n1, n2]"
proof -
  from assms have "parse_ns_ew (PyStr s) =
      (PyFloat (py_float_token n1), PyFloat (py_float_token n2))"
    by (simp add: parse_ns_ew_def hemi_adjust_no_letter)
  then show "extract_lat_lon_from_text (PyStr s) =
           (PyFloat (py_float_token n1), PyFloat (py_float_token n2))"
    by (simp add: extract_lat_lon_from_text_def)
  have "findall_numbers s = map fst (findall_tokens (py_strip s))"
    by (simp add: strip_tokens_numbers)
  with assms show "take 2 (findall_numbers s) = [n1, n2]" by simp
qed

lemma extract_few_tokens:
  assumes "length (findall_tokens (py_strip s)) < 2"
  shows "length (findall_numbers s) < 2"
    and "extract_lat_lon_from_text (PyStr s) = (PyFloat NaN, PyFloat NaN)"
proof -
  have "length (findall_numbers s) = length (findall_tokens (py_strip s))"
    using arg_cong [OF strip_tokens_numbers [of s], of length] by simp
  with assms show "length (findall_numbers s) < 2" by simp
  then show "extract_lat_lon_from_text (PyStr s) = (PyFloat NaN, PyFloat NaN)"
    by (simp add: extract_by_count)
qed

text \<open>
  Claim C5, amended. When the hemisphere-aware scan finds fewer than two tokens, the plain
  scan finds fewer than two numeric substrings as well and the extractor reports not found,
  \<^verbatim>\<open>(nan, nan)\<close>: the fallback never supplies a pair. Two bare numbers are taken by the
  hemisphere-aware scan itself: when its first two tokens carry no letter, they are the first
  two numeric substrings in order of appearance and the extractor returns them as (latitude,
  longitude) with no sign adjustment. So the input \<^verbatim>\<open>"91.0, 10.0"\<close> yields
  \<open>(91.0, 10.0)\<close> through the hemisphere-aware scan, and the validator rejects that pair.
\<close>

theorem extract_fallback_amended:
  "(length (findall_tokens (py_strip s)) < 2 \<longrightarrow>
      length (findall_numbers s) < 2
      \<and> extract_lat_lon_from_text (PyStr s) = (PyFloat NaN, PyFloat NaN))
   \<and> (findall_tokens (py_strip s) = (n1, []) # (n2, []) # toks \<longrightarrow>
      take 2 (findall_numbers s) = [n1, n2]
      \<and> extract_lat_lon_from_text (PyStr s) =
          (PyFloat (py_float_token n1), PyFloat (py_float_token n2)))
   \<and> findall_tokens (py_strip ''91.0, 10.0'') = [(''91.0'', []), (''10.0'', [])]
   \<and> parse_ns_ew (PyStr ''91.0, 10.0'') = (PyFloat (Finite 91), PyFloat (Finite 10))
   \<and> extract_lat_lon_from_text (PyStr ''91.0, 10.0'') = (PyFloat (Finite 91), PyFloat (Finite 10))
   \<and> \<not> valid_lat_lon strtod (PyFloat (Finite 91)) (PyFloat (Finite 10))"
proof (intro conjI impI)
  assume a: "length (findall_tokens (py_strip s)) < 2"
  from extract_few_tokens(1) [OF a] show "length (findall_numbers s) < 2" .
  from extract_few_tokens(2) [OF a]
  show "extract_lat_lon_from_text (PyStr s) = (PyFloat NaN, PyFloat NaN)" .
next
  assume b: "findall_tokens (py_strip s) = (n1, []) # (n2, []) # toks"
  from extract_two_bare_numbers(2) [OF b] show "take 2 (findall_numbers s) = [n1, n2]" .
  from extract_two_bare_numbers(1) [OF b]
  show "extract_lat_lon_from_text (PyStr s) =
          (PyFloat (py_float_token n1), PyFloat (py_float_token n2))" .
next
  show "findall_tokens (py_strip ''91.0, 10.0'') = [(''91.0'', []), (''10.0'', [])]"
    by (rule tokens_91_10)
next
  show "parse_ns_ew (PyStr ''91.0, 10.0'') = (PyFloat (Finite 91), PyFloat (Finite 10))"
    by (rule parse_91_10)
next
  show "extract_lat_lon_from_text (PyStr ''91.0, 10.0'') = (PyFloat (Finite 91), PyFloat (Finite 10))"
    unfolding extract_lat_lon_from_text_def parse_91_10 by simp
next
  show "\<not> valid_lat_lon strtod (PyFloat (Finite 91)) (PyFloat (Finite 10))"
    by (simp add: valid_lat_lon_def valid_lat_lon_try_def pd_isna_def)
qed

lemma tokens_lima: "findall_tokens (py_strip ''Lima 12S'') = [(''12'', ''S'')]"
  by code_simp

lemma tokens_bare_pair: "findall_tokens (py_strip ''-12.5; 77'') = [(''-12.5'', []), (''77'', [])]"
  by code_simp

lemma floats_bare_pair:
  "py_float_token ''-12.5'' = Finite (- 25 / 2)" "py_float_token ''77'' = Finite 77"
  by code_simp+

theorem extract_fallback_amended_witness:
  "length (findall_tokens (py_strip ''Lima 12S'')) < 2
   \<and> length (findall_numbers ''Lima 12S'') < 2
   \<and> extract_lat_lon_from_text (PyStr ''Lima 12S'') = (PyFloat NaN, PyFloat NaN)
   \<and> findall_tokens (py_strip ''-12.5; 77'') = [(''-12.5'', []), (''77'', [])]
   \<and> take 2 (findall_numbers ''-12.5; 77'') = [''-12.5'', ''77'']
   \<and> extract_lat_lon_from_text (PyStr ''-12.5; 77'') =
       (PyFloat (Finite (- 25 / 2)), PyFloat (Finite 77))"
proof -
  have l: "length (findall_tokens (py_strip ''Lima 12S'')) < 2"
    unfolding tokens_lima by simp
  from extract_fallback_amended [of "''Lima 12S''" "[]" "[]" "[]" "\<lambda>_. None"] l
  have a: "length (findall_numbers ''Lima 12S'') < 2"
    and b: "extract_lat_lon_from_text (PyStr ''Lima 12S'') = (PyFloat NaN, PyFloat NaN)"
    by blast+
  have t: "findall_tokens (py_strip ''-12.5; 77'') = (''-12.5'', []) # (''77'', []) # []"
    by (rule tokens_bare_pair)
  from extract_fallback_amended [of "''-12.5; 77''" "''-12.5''" "''77''" "[]" "\<lambda>_. None"] t
  have c: "take 2 (findall_numbers ''-12.5; 77'') = [''-12.5'', ''77'']"
    and d: "extract_lat_lon_from_text (PyStr ''-12.5; 77'') =
       (PyFloat (py_float_token ''-12.5''), PyFloat (py_float_token ''77''))"
    by blast+
  from d have d': "extract_lat_lon_from_text (PyStr ''-12.5; 77'') =
       (PyFloat (Finite (- 25 / 2)), PyFloat (Finite 77))"
    by (simp only: floats_bare_pair)
  from l a b tokens_bare_pair c d' show ?thesis by (intro conjI)
qed

section \<open>Properties of the Coordinate Validator\<close>

text \<open>
  Claim C2. For every candidate pair the validator answers true exactly when both values
  are present (not missing), numeric (\<^verbatim>\<open>float()\<close> converts them), finite, and the latitude
  lies in \<open>[-90, 90]\<close> and the longitude in \<open>[-180, 180]\<close>. In every other case, the
  ones where the conversion raises included, the answer is the boolean false: the function
  is total, no exception leaves it.
\<close>

theorem valid_lat_lon_iff:
  "valid_lat_lon strtod lat lon \<longleftrightarrow>
     \<not> pd_isna lat \<and> \<not> pd_isna lon \<and>
     (\<exists>a b. py_float strtod lat = Inr (Finite a) \<and> py_float strtod lon = Inr (Finite b)
        \<and> - 90 \<le> a \<and> a \<le> 90 \<and> - 180 \<le> b \<and> b \<le> 180)"
proof (cases "pd_isna lat \<or> pd_isna lon")
  case True
  then show ?thesis
    by (auto simp: valid_lat_lon_def valid_lat_lon_try_def)
next
  case False
  show ?thesis
  proof (cases "py_float strtod lat")
    case (Inl e)
    with False show ?thesis
      by (simp add: valid_lat_lon_def valid_lat_lon_try_def)
  next
    case la: (Inr la)
    show ?thesis
    proof (cases "py_float strtod lon")
      case (Inl e)
      with False la show ?thesis
        by (simp add: valid_lat_lon_def valid_lat_lon_try_def)
    next
      case lo: (Inr lo)
      from False la lo show ?thesis
        by (cases la; cases lo) (simp_all add: valid_lat_lon_def valid_lat_lon_try_def)
    qed
  qed
qed

section \<open>Properties of the retry loop\<close>

lemma run_cmd_loop_count: "snd (run_cmd_loop call n k l) \<le> k + n"
proof (induction n arbitrary: k l)
  case 0
  show ?case by simp
next
  case (Suc n)
  have "snd (run_cmd_loop call n (Suc k) (call k)) \<le> Suc k + n"
    by (rule Suc.IH)
  then show ?case by (simp add: Let_def)
qed

lemma run_cmd_loop_fail:
  "(\<And>i. i < n \<Longrightarrow> call (k + i) \<noteq> 0) \<Longrightarrow>
   run_cmd_loop call n k l = (if n = 0 then l else call (k + n - 1), k + n)"
proof (induction n arbitrary: k l)
  case 0
  show ?case by simp
next
  case (Suc n)
  have "call k \<noteq> 0" using Suc.prems [of 0] by simp
  moreover have "run_cmd_loop call n (Suc k) (call k)
      = (if n = 0 then call k else call (Suc k + n - 1), Suc k + n)"
    using Suc.prems [of "Suc i" for i] by (intro Suc.IH) simp
  ultimately show ?case by (auto simp: Let_def)
qed

lemma run_cmd_loop_stop:
  "i < n \<Longrightarrow> call (k + i) = 0 \<Longrightarrow> (\<And>j. j < i \<Longrightarrow> call (k + j) \<noteq> 0) \<Longrightarrow>
   run_cmd_loop call n k l = (0, Suc (k + i))"
proof (induction n arbitrary: k l i)
  case 0
  then show ?case by simp
next
  case (Suc n)
  show ?case
  proof (cases i)
    case 0
    with Suc.prems show ?thesis by (simp add: Let_def)
  next
    case (Suc i')
    have nz: "call k \<noteq> 0" using Suc.prems(3) [of 0] Suc by simp
    have "run_cmd_loop call n (Suc k) (call k) = (0, Suc (Suc k + i'))"
    proof (rule Suc.IH)
      show "i' < n" using Suc.prems(1) Suc by simp
      show "call (Suc k + i') = 0" using Suc.prems(2) Suc by simp
      show "call (Suc k + j) \<noteq> 0" if "j < i'" for j
        using Suc.prems(3) [of "Suc j"] that Suc by simp
    qed
    with nz Suc show ?thesis by (simp add: Let_def)
  qed
qed

text \<open>
  Claim C9. \<^verbatim>\<open>run_cmd\<close> invokes the command at most \<^verbatim>\<open>retries\<close> times. When some
  attempt among them exits with 0, it returns 0 right after the first such attempt and makes
  no further one. When no attempt exits with 0 (and there is at least one), it returns the
  exit status of the last attempt, after exactly \<^verbatim>\<open>retries\<close> invocations. With
  \<^verbatim>\<open>retries\<close> below 1 nothing is invoked and the initial status 1 is returned.
\<close>

theorem run_cmd_retries:
  "snd (run_cmd call cmd retries) \<le> nat retries
   \<and> (\<forall>k. k < nat retries \<and> call cmd k = 0 \<and> (\<forall>j<k. call cmd j \<noteq> 0)
          \<longrightarrow> run_cmd call cmd retries = (0, Suc k))
   \<and> (1 \<le> retries \<and> (\<forall>k<nat retries. call cmd k \<noteq> 0)
          \<longrightarrow> run_cmd call cmd retries = (call cmd (nat retries - 1), nat retries))
   \<and> (retries \<le> 0 \<longrightarrow> run_cmd call cmd retries = (1, 0))"
proof (intro conjI allI impI)
  show "snd (run_cmd call cmd retries) \<le> nat retries"
    using run_cmd_loop_count [of "call cmd" "nat retries" 0 1] by (simp add: run_cmd_def)
next
  fix k
  assume "k < nat retries \<and> call cmd k = 0 \<and> (\<forall>j<k. call cmd j \<noteq> 0)"
  then show "run_cmd call cmd retries = (0, Suc k)"
    using run_cmd_loop_stop [of k "nat retries" "call cmd" 0 1] by (simp add: run_cmd_def)
next
  assume "1 \<le> retries \<and> (\<forall>k<nat retries. call cmd k \<noteq> 0)"
  then show "run_cmd call cmd retries = (call cmd (nat retries - 1), nat retries)"
    using run_cmd_loop_fail [of "nat retries" "call cmd" 0 1] by (simp add: run_cmd_def)
next
  assume "retries \<le> 0"
  then show "run_cmd call cmd retries = (1, 0)"
    by (simp add: run_cmd_def)
qed

theorem run_cmd_retries_witness:
  "run_cmd (\<lambda>c k. if k = 1 then 0 else 2) ''esearch'' 3 = (0, 2)
   \<and> run_cmd (\<lambda>c k. 5 + int k) ''esearch'' 3 = (7, 3)
   \<and> run_cmd (\<lambda>c k. 5 + int k) ''esearch'' 0 = (1, 0)"
proof -
  have a: "run_cmd (\<lambda>c k. if k = 1 then 0 else 2) ''esearch'' 3 = (0, 2)"
    using run_cmd_retries [of "\<lambda>c k. if k = 1 then 0 else 2" "''esearch''" 3]
    by (auto simp: numeral_2_eq_2)
  have b: "run_cmd (\<lambda>c k. 5 + int k) ''esearch'' 3 = (7, 3)"
    using run_cmd_retries [of "\<lambda>c k. 5 + int k" "''esearch''" 3]
    by auto
  have c: "run_cmd (\<lambda>c k. 5 + int k) ''esearch'' 0 = (1, 0)"
    using run_cmd_retries [of "\<lambda>c k. 5 + int k" "''esearch''" 0]
    by auto
  from a b c show ?thesis by simp
qed

section \<open>Properties of the lookups\<close>

lemma enrich_loop_records:
  "fst (enrich_loop E L chunks records w) = records @ successes (chunk_outcomes E L chunks w)"
proof (induction chunks arbitrary: records w)
  case Nil
  show ?case by (simp add: successes_def)
next
  case (Cons chunk chunks)
  obtain r w' where f: "fetch_chunk E L chunk w = (r, w')" by (cases "fetch_chunk E L chunk w")
  show ?case
  proof (cases r)
    case (Inl e)
    with f Cons.IH [of records w'] show ?thesis by (simp add: successes_def)
  next
    case (Inr res)
    show ?thesis
    proof (cases res)
      case None
      with f Inr Cons.IH [of records w'] show ?thesis by (simp add: successes_def)
    next
      case (Some dfc)
      with f Inr Cons.IH [of "records @ [dfc]" w'] show ?thesis by (simp add: successes_def)
    qed
  qed
qed

lemma enrich_coords_from_ena_result:
  assumes "0 < chunk_size"
  shows "fst (enrich_coords_from_ena E L ids chunk_size w) =
           Inr (let ok = successes (chunk_outcomes E L (chunks_of (nat chunk_size) (str_ids ids)) w)
                in if ok = [] then schema_frame L else pd_concat ok)"
proof -
  obtain records w' where l:
    "enrich_loop E L (chunks_of (nat chunk_size) (str_ids ids)) [] w = (records, w')"
    by (cases "enrich_loop E L (chunks_of (nat chunk_size) (str_ids ids)) [] w")
  have "records = successes (chunk_outcomes E L (chunks_of (nat chunk_size) (str_ids ids)) w)"
    using enrich_loop_records [of E L "chunks_of (nat chunk_size) (str_ids ids)" "[]" w] l
    by simp
  with assms l show ?thesis
    by (simp add: enrich_coords_from_ena_def Let_def)
qed

text \<open>
  Claim C8. A failing lookup batch is not fatal. For every list of identifiers (and every
  positive chunk size; the resolver uses 200) both lookup functions return a table and do not
  raise: whatever a chunk raises is caught and the chunk contributes nothing, and the result is
  the concatenation of the tables of the chunks that succeeded, or, when none did, the table
  without rows whose columns are the key (\<^verbatim>\<open>Run\<close> or \<^verbatim>\<open>Sample\<close>),
  \<^verbatim>\<open>latitude\<close>, \<^verbatim>\<open>longitude\<close> and \<^verbatim>\<open>geographic_location\<close>.
\<close>

theorem enrich_lookups_never_raise:
  assumes "0 < chunk_size"
  shows "fst (enrich_coords_from_ena_by_runs E ids chunk_size w) =
           Inr (let ok = successes (chunk_outcomes E by_runs
                                      (chunks_of (nat chunk_size) (str_ids ids)) w)
                in if ok = []
                   then \<lparr>columns = [''Run'', ''latitude'', ''longitude'', ''geographic_location''],
                         rows = []\<rparr>
                   else pd_concat ok)
       \<and> fst (enrich_coords_from_ena_by_samples E ids chunk_size w) =
           Inr (let ok = successes (chunk_outcomes E by_samples
                                      (chunks_of (nat chunk_size) (str_ids ids)) w)
                in if ok = []
                   then \<lparr>columns = [''Sample'', ''latitude'', ''longitude'', ''geographic_location''],
                         rows = []\<rparr>
                   else pd_concat ok)"
  using enrich_coords_from_ena_result [OF assms, of E by_runs ids w]
    enrich_coords_from_ena_result [OF assms, of E by_samples ids w]
  by (simp add: enrich_coords_from_ena_by_runs_def enrich_coords_from_ena_by_samples_def
      schema_frame_def by_runs_def by_samples_def Let_def)


lemma example_runs_chunks:
  "(let ok = successes (chunk_outcomes example_env by_runs
                (chunks_of (nat 2)
                   (str_ids [PyStr ''R1'', PyStr ''R2'', PyFloat NaN, PyStr ''  '', PyStr ''R3'']))
                0)
    in if ok = []
       then \<lparr>columns = [''Run'', ''latitude'', ''longitude'', ''geographic_location''],
             rows = []\<rparr>
       else pd_concat ok)
   = \<lparr>columns = [''Run'', ''latitude'', ''longitude'', ''geographic_location''],
      rows = [[PyStr ''R3'', PyStr ''1.5'', PyStr ''2.5'', PyFloat NaN]]\<rparr>"
  by code_simp

lemma example_samples_chunks:
  "(let ok = successes (chunk_outcomes example_env by_samples
                (chunks_of (nat 200) (str_ids [PyStr ''S1''])) 0)
    in if ok = []
       then \<lparr>columns = [''Sample'', ''latitude'', ''longitude'', ''geographic_location''],
             rows = []\<rparr>
       else pd_concat ok)
   = \<lparr>columns = [''Sample'', ''latitude'', ''longitude'', ''geographic_location''],
      rows = []\<rparr>"
  by code_simp

theorem enrich_lookups_never_raise_witness:
  "fst (enrich_coords_from_ena_by_runs example_env
          [PyStr ''R1'', PyStr ''R2'', PyFloat NaN, PyStr ''  '', PyStr ''R3''] 2 0)
     = Inr \<lparr>columns = [''Run'', ''latitude'', ''longitude'', ''geographic_location''],
            rows = [[PyStr ''R3'', PyStr ''1.5'', PyStr ''2.5'', PyFloat NaN]]\<rparr>
   \<and> fst (enrich_coords_from_ena_by_samples example_env [PyStr ''S1''] 200 0)
     = Inr \<lparr>columns = [''Sample'', ''latitude'', ''longitude'', ''geographic_location''],
            rows = []\<rparr>"
proof -
  have a: "(0::int) < 2" and b: "(0::int) < 200" by simp_all
  from enrich_lookups_never_raise [OF a, of example_env
      "[PyStr ''R1'', PyStr ''R2'', PyFloat NaN, PyStr ''  '', PyStr ''R3'']" 0]
  have 1: "fst (enrich_coords_from_ena_by_runs example_env
          [PyStr ''R1'', PyStr ''R2'', PyFloat NaN, PyStr ''  '', PyStr ''R3''] 2 0)
     = Inr \<lparr>columns = [''Run'', ''latitude'', ''longitude'', ''geographic_location''],
            rows = [[PyStr ''R3'', PyStr ''1.5'', PyStr ''2.5'', PyFloat NaN]]\<rparr>"
    unfolding example_runs_chunks by (rule conjunct1)
  from enrich_lookups_never_raise [OF b, of example_env "[PyStr ''S1'']" 0]
  have 2: "fst (enrich_coords_from_ena_by_samples example_env [PyStr ''S1''] 200 0)
     = Inr \<lparr>columns = [''Sample'', ''latitude'', ''longitude'', ''geographic_location''],
            rows = []\<rparr>"
    unfolding example_samples_chunks by (rule conjunct2)
  from 1 2 show ?thesis by (rule conjI)
qed

section \<open>Properties of the Enrichment Resolver\<close>

lemma resolved_iff:
  "resolved l \<longleftrightarrow>
     (\<exists>a b. latitude l = PyFloat (Finite a) \<and> longitude l = PyFloat (Finite b)
        \<and> - 90 \<le> a \<and> a \<le> 90 \<and> - 180 \<le> b \<and> b \<le> 180)"
proof (cases "latitude l")
  case lat: (PyFloat x)
  show ?thesis
  proof (cases "longitude l")
    case lon: (PyFloat y)
    from lat lon show ?thesis by (cases x; cases y) (simp_all add: resolved_def)
  qed (simp_all add: resolved_def lat split: pyfloat.split)
qed (simp_all add: resolved_def)

lemma valid_lat_lon_floats:
  "valid_lat_lon sf (PyFloat x) (PyFloat y) \<longleftrightarrow>
     (\<exists>a b. x = Finite a \<and> y = Finite b \<and> - 90 \<le> a \<and> a \<le> 90 \<and> - 180 \<le> b \<and> b \<le> 180)"
  by (cases x; cases y) (simp_all add: valid_lat_lon_def valid_lat_lon_try_def pd_isna_def)

lemma valid_numeric_row_resolved:
  "valid_row E (to_numeric_row E l) \<Longrightarrow> resolved (to_numeric_row E l)"
  by (simp add: valid_row_def to_numeric_row_def valid_lat_lon_floats resolved_iff)

lemma fill_and_filter_geo_out:
  assumes "fill_and_filter_geo E all_df w = (Inr out, w')"
  shows "\<exists>df2. out = filter (valid_row E) (map (to_numeric_row E) (map fill_from_text df2))"
  using assms
  by (auto simp: fill_and_filter_geo_def split: prod.splits sum.splits)

lemma fill_and_filter_geo_resolved:
  assumes "fill_and_filter_geo E all_df w = (Inr out, w')"
  shows "list_all resolved out"
proof -
  from fill_and_filter_geo_out [OF assms] obtain df2
    where "out = filter (valid_row E) (map (to_numeric_row E) (map fill_from_text df2))" ..
  then show ?thesis
    by (auto simp: list_all_iff intro: valid_numeric_row_resolved)
qed

text \<open>
  Claim C1. Every record that \<^verbatim>\<open>fill_and_filter_geo\<close> returns has a latitude in
  \<open>[-90, 90]\<close> and a longitude in \<open>[-180, 180]\<close>, both present and finite, and passes the
  validator: after the three fill stages only the records that the validator accepts are
  kept. So a record whose coordinates stay missing or invalid, such as one without location
  text whose lookups failed, is not in the output.
\<close>

theorem fill_and_filter_geo_valid:
  assumes "fill_and_filter_geo E all_df w = (Inr out, w')"
  shows "\<forall>r\<in>set out. \<not> pd_isna (latitude r) \<and> \<not> pd_isna (longitude r)
           \<and> (\<exists>a b. latitude r = PyFloat (Finite a) \<and> longitude r = PyFloat (Finite b)
                  \<and> - 90 \<le> a \<and> a \<le> 90 \<and> - 180 \<le> b \<and> b \<le> 180)
           \<and> valid_row E r"
proof
  fix r assume r: "r \<in> set out"
  from fill_and_filter_geo_out [OF assms] obtain df2
    where out: "out = filter (valid_row E) (map (to_numeric_row E) (map fill_from_text df2))" ..
  from fill_and_filter_geo_resolved [OF assms] r have "resolved r"
    by (simp add: list_all_iff)
  then obtain a b where ab: "latitude r = PyFloat (Finite a)" "longitude r = PyFloat (Finite b)"
      "- 90 \<le> a" "a \<le> 90" "- 180 \<le> b" "b \<le> 180"
    unfolding resolved_iff by blast
  moreover from r out have "valid_row E r" by simp
  ultimately show "\<not> pd_isna (latitude r) \<and> \<not> pd_isna (longitude r)
           \<and> (\<exists>a b. latitude r = PyFloat (Finite a) \<and> longitude r = PyFloat (Finite b)
                  \<and> - 90 \<le> a \<and> a \<le> 90 \<and> - 180 \<le> b \<and> b \<le> 180)
           \<and> valid_row E r"
    by (auto simp: pd_isna_def)
qed


lemma example_rows_resolver:
  "fill_and_filter_geo example_env example_rows 1 =
     (Inr [\<lparr>Run = Some ''R3'', Sample = None, latitude = PyFloat (Finite (3 / 2)),
             longitude = PyFloat (Finite (5 / 2)), geographic_location = PyFloat NaN\<rparr>],
      2)"
  by code_simp

lemma example_rows_failed_lookup:
  "fill_and_filter_geo example_env example_rows 0 = (Inr [], 1)"
  by code_simp

theorem fill_and_filter_geo_valid_witness:
  "fill_and_filter_geo example_env example_rows 1 =
     (Inr [\<lparr>Run = Some ''R3'', Sample = None, latitude = PyFloat (Finite (3 / 2)),
             longitude = PyFloat (Finite (5 / 2)), geographic_location = PyFloat NaN\<rparr>],
      2)
   \<and> valid_row example_env
        \<lparr>Run = Some ''R3'', Sample = None, latitude = PyFloat (Finite (3 / 2)),
          longitude = PyFloat (Finite (5 / 2)), geographic_location = PyFloat NaN\<rparr>
   \<and> fill_and_filter_geo example_env example_rows 0 = (Inr [], 1)"
  using fill_and_filter_geo_valid [OF example_rows_resolver]
    example_rows_resolver example_rows_failed_lookup
  by simp

lemma keeps_present_refl: "keeps_present l l"
  by (simp add: keeps_present_def)

lemma fill_row_keeps: "keeps_present l (fill_row l lat lon loc)"
  by (simp add: keeps_present_def fill_row_def fillna_def)

lemma merge_fill_keeps: "r \<in> set (merge_fill key sel l) \<Longrightarrow> keeps_present l r"
  by (auto simp: merge_fill_def Let_def fill_row_keeps split: if_splits)

lemma merge_fill_not_Nil: "merge_fill key sel l \<noteq> []"
  by (simp add: merge_fill_def Let_def)

lemma concat_singletons: "concat (map (\<lambda>l. [l]) xs) = xs"
  by (induction xs) simp_all

lemma fill_from_lookup_keeps:
  assumes "fill_from_lookup E L key all_df w = (Inr out, w')"
  shows "\<exists>g. out = concat (map g all_df)
           \<and> (\<forall>l. g l \<noteq> [] \<and> (\<forall>r\<in>set (g l). keeps_present l r))"
proof -
  have same: "\<exists>g. all_df = concat (map g all_df)
           \<and> (\<forall>l. g l \<noteq> [] \<and> (\<forall>r\<in>set (g l). keeps_present l r))"
    by (rule exI [of _ "\<lambda>l. [l]"]) (simp add: concat_singletons keeps_present_refl)
  have merged: "\<exists>g. concat (map (merge_fill key sel) all_df) = concat (map g all_df)
           \<and> (\<forall>l. g l \<noteq> [] \<and> (\<forall>r\<in>set (g l). keeps_present l r))" for sel
    by (rule exI [of _ "merge_fill key sel"]) (simp add: merge_fill_not_Nil merge_fill_keeps)
  from assms consider "out = all_df"
    | sel where "out = concat (map (merge_fill key sel) all_df)"
    by (auto simp: fill_from_lookup_def Let_def split: if_splits prod.splits sum.splits)
  then show ?thesis
  proof cases
    case 1
    with same show ?thesis by simp
  next
    case 2
    with merged [of sel] show ?thesis by simp
  qed
qed

lemma fill_from_text_keeps: "keeps_present l (fill_from_text l)"
  by (simp add: fill_from_text_def keeps_present_def fillna_def split: prod.split)

text \<open>
  Claim C6. The merge is first-source-wins. Each lookup stage (per run, per sample) turns
  every record into one or more records (one for each matching row of the lookup table), and
  the free-text stage turns it into one; in each of them a latitude, longitude or location
  text that was present before the stage is the same after it. Only missing fields are filled.
\<close>

theorem first_source_wins:
  "(fill_from_lookup E L key all_df w = (Inr out, w') \<longrightarrow>
      (\<exists>g. out = concat (map g all_df)
         \<and> (\<forall>l. g l \<noteq> [] \<and> (\<forall>r\<in>set (g l). keeps_present l r))))
   \<and> keeps_present l (fill_from_text l)"
  using fill_from_lookup_keeps [of E L key all_df w out w'] fill_from_text_keeps [of l]
  by blast

lemma example_first_source:
  "fill_from_lookup example_env by_runs Run
     [\<lparr>Run = Some ''R3'', Sample = None, latitude = PyStr ''40.0'', longitude = PyFloat NaN,
        geographic_location = PyFloat NaN\<rparr>] 1 =
   (Inr [\<lparr>Run = Some ''R3'', Sample = None, latitude = PyStr ''40.0'',
           longitude = PyStr ''2.5'', geographic_location = PyFloat NaN\<rparr>], 2)"
  by code_simp

theorem first_source_wins_witness:
  "fill_from_lookup example_env by_runs Run
     [\<lparr>Run = Some ''R3'', Sample = None, latitude = PyStr ''40.0'', longitude = PyFloat NaN,
        geographic_location = PyFloat NaN\<rparr>] 1 =
   (Inr [\<lparr>Run = Some ''R3'', Sample = None, latitude = PyStr ''40.0'',
           longitude = PyStr ''2.5'', geographic_location = PyFloat NaN\<rparr>], 2)
   \<and> keeps_present
        \<lparr>Run = Some ''R3'', Sample = None, latitude = PyStr ''40.0'', longitude = PyFloat NaN,
          geographic_location = PyFloat NaN\<rparr>
        \<lparr>Run = Some ''R3'', Sample = None, latitude = PyStr ''40.0'',
          longitude = PyStr ''2.5'', geographic_location = PyFloat NaN\<rparr>"
proof -
  let ?l = "\<lparr>Run = Some ''R3'', Sample = None, latitude = PyStr ''40.0'',
              longitude = PyFloat NaN, geographic_location = PyFloat NaN\<rparr>"
  let ?r = "\<lparr>Run = Some ''R3'', Sample = None, latitude = PyStr ''40.0'',
              longitude = PyStr ''2.5'', geographic_location = PyFloat NaN\<rparr>"
  from first_source_wins [of example_env by_runs Run "[?l]" 1 "[?r]" 2 ?l] example_first_source
  obtain g where g: "[?r] = concat (map g [?l])"
    and k: "\<forall>l. g l \<noteq> [] \<and> (\<forall>r\<in>set (g l). keeps_present l r)"
    by blast
  from g have "?r \<in> set (g ?l)" by (simp add: eq_commute [of "[?r]"])
  with k have "keeps_present ?l ?r" by blast
  with example_first_source show ?thesis by (rule conjI)
qed












end
